theory Spec2Isabelle
  imports Complex_Main
begin

section \<open>Python strings\<close>

text \<open>
  A Python \<open>str\<close> is a sequence of Unicode code points, so a character is modelled by its
  code point and a string by the list of its code points. The literals of the source are
  ASCII; \<open>ascii\<close> turns an Isabelle string literal into the corresponding Python string.
\<close>

type_synonym pychar = nat
type_synonym pystr = "pychar list"

definition ascii :: "string \<Rightarrow> pystr" where
  "ascii s = map of_char s"

text \<open>
  \<open>str.strip()\<close> without argument removes the leading and the trailing characters for
  which \<open>str.isspace\<close> holds. These are the code points CPython treats as whitespace.
\<close>

definition isspace :: "pychar \<Rightarrow> bool" where
  "isspace c \<longleftrightarrow>
     (9 \<le> c \<and> c \<le> 13) \<or> (28 \<le> c \<and> c \<le> 32) \<or> c = 133 \<or> c = 160 \<or> c = 5760 \<or>
     (8192 \<le> c \<and> c \<le> 8202) \<or> c = 8232 \<or> c = 8233 \<or> c = 8239 \<or> c = 8287 \<or> c = 12288"

definition strip :: "pystr \<Rightarrow> pystr" where
  "strip s = rev (dropWhile isspace (rev (dropWhile isspace s)))"

text \<open>
  In a \<open>str\<close> pattern the class \<open>\d\<close> of the \<open>re\<close> module matches every Unicode decimal
  digit (general category Nd), not only \<open>0\<close> to \<open>9\<close>. The digits of each script are ten
  consecutive code points; \<open>decimal_zeros\<close> lists the code point of each script's zero
  (Unicode 14.0.0, the database of CPython 3.11).
\<close>

definition decimal_zeros :: "pychar list" where
  "decimal_zeros =
    [48, 1632, 1776, 1984, 2406, 2534, 2662, 2790, 2918, 3046, 3174, 3302, 3430, 3558,
     3664, 3792, 3872, 4160, 4240, 6112, 6160, 6470, 6608, 6784, 6800, 6992, 7088, 7232,
     7248, 42528, 43216, 43264, 43472, 43504, 43600, 44016, 65296, 66720, 68912, 69734,
     69872, 69942, 70096, 70384, 70736, 70864, 71248, 71360, 71472, 71904, 72016, 72784,
     73040, 73120, 92768, 92864, 93008, 120782, 120792, 120802, 120812, 120822, 123200,
     123632, 125264, 130032]"

definition isdecimal :: "pychar \<Rightarrow> bool" where
  "isdecimal c = list_ex (\<lambda>z. z \<le> c \<and> c \<le> z + 9) decimal_zeros"

text \<open>
  The three patterns of the source are sequences of single-character atoms (a literal
  character or \<open>\d\<close>), a counted repetition \<open>\d{n}\<close> being \<open>n\<close> copies of \<open>\d\<close>.
  \<open>re.fullmatch\<close> succeeds when the whole string is matched, atom by character.
\<close>

datatype atom = Lit pychar | Digit

fun atom_match :: "atom \<Rightarrow> pychar \<Rightarrow> bool" where
  "atom_match (Lit a) c = (c = a)"
| "atom_match Digit c = isdecimal c"

definition fullmatch :: "atom list \<Rightarrow> pystr \<Rightarrow> bool" where
  "fullmatch p s = list_all2 atom_match p s"

section \<open>Query classifier\<close>

definition is_mobile :: "pystr \<Rightarrow> bool" where
  "is_mobile v = fullmatch (map Lit (ascii ''92'') @ replicate 10 Digit) v"

definition is_local_mobile :: "pystr \<Rightarrow> bool" where
  "is_local_mobile v = fullmatch (map Lit (ascii ''03'') @ replicate 9 Digit) v"

definition is_cnic :: "pystr \<Rightarrow> bool" where
  "is_cnic v = fullmatch (replicate 13 Digit) v"

definition normalize_mobile :: "pystr \<Rightarrow> pystr" where
  "normalize_mobile value0 =
     (let v = strip value0 in
      if is_mobile v then v
      else if is_local_mobile v then ascii ''92'' @ drop 1 v
      else v)"

text \<open>
  Exceptions are values. \<open>ValueError\<close> is what \<open>classify_query\<close> raises,
  \<open>PermissionError\<close> what \<open>fetch_upstream\<close> raises when fetching is switched off,
  \<open>RequestException\<close> stands for the exceptions of the \<open>requests\<close> library (connection
  failures, timeouts, and the \<open>HTTPError\<close> of \<open>raise_for_status\<close>), and
  \<open>ParserRejectedMarkup\<close> is what \<open>BeautifulSoup(html, "html.parser")\<close> raises on
  markup the parser rejects. Each carries its message, which is what \<open>str(e)\<close> returns.
\<close>

datatype exn = ValueError pystr | PermissionError pystr | RequestException pystr
  | ParserRejectedMarkup pystr

fun str_of_exn :: "exn \<Rightarrow> pystr" where
  "str_of_exn (ValueError m) = m"
| "str_of_exn (PermissionError m) = m"
| "str_of_exn (RequestException m) = m"
| "str_of_exn (ParserRejectedMarkup m) = m"

definition invalid_query_message :: pystr where
  "invalid_query_message =
     ascii ''Invalid query. Use CNIC (13 digits) or mobile (03XXXXXXXXX / 92XXXXXXXXXX).''"

definition classify_query :: "pystr \<Rightarrow> exn + (string \<times> pystr)" where
  "classify_query value0 =
     (let v = strip value0 in
      if is_cnic v then Inr (''cnic'', v)
      else let normalized = normalize_mobile v in
        if is_mobile normalized then Inr (''mobile'', normalized)
        else Inl (ValueError invalid_query_message))"

section \<open>Configuration and environment\<close>

text \<open>
  The module-level configuration. \<open>TARGET_BASE\<close>, \<open>TARGET_PATH\<close> and \<open>MIN_INTERVAL\<close>
  come from the process environment; \<open>ALLOW_UPSTREAM\<close> is the flag tested by
  \<open>fetch_upstream\<close> (the source sets it to \<open>True\<close>). Timestamps and intervals are Python
  floats in the source and real numbers here.
\<close>

record config =
  TARGET_BASE :: pystr
  TARGET_PATH :: pystr
  ALLOW_UPSTREAM :: bool
  MIN_INTERVAL :: real

definition DEVELOPER :: pystr where
  "DEVELOPER = ascii ''Savitar''"

record request =
  url :: pystr
  headers :: "(string \<times> pystr) list"
  form_data :: "(string \<times> pystr) list"
  timeout :: nat

text \<open>
  An upstream answer: its status code, its body, and the message of the \<open>HTTPError\<close> that
  \<open>raise_for_status\<close> builds for an error status.
\<close>

record http_response =
  status_code :: nat
  body_text :: pystr
  http_error_message :: pystr

text \<open>
  The state the code reads and writes: the wall clock read by \<open>time.time()\<close>, the
  module-level \<open>LAST_CALL["ts"]\<close>, and the requests posted so far.
\<close>

record world =
  clock :: real
  LAST_CALL :: real
  posted :: "request list"

text \<open>
  What the environment decides during one call: by how much \<open>time.sleep\<close> overshoots
  the requested duration, how much time passes before the final \<open>time.time()\<close>, and
  what \<open>session.post\<close> does (an exception of \<open>requests\<close> or a response).
\<close>

record env =
  oversleep :: real
  lag :: real
  post :: "request \<Rightarrow> exn + http_response"

section \<open>Rate limiter\<close>

definition time_sleep :: "real \<Rightarrow> real \<Rightarrow> world \<Rightarrow> world" where
  "time_sleep secs over w = w\<lparr>clock := clock w + secs + over\<rparr>"

definition rate_limit_wait :: "real \<Rightarrow> env \<Rightarrow> world \<Rightarrow> world" where
  "rate_limit_wait min_interval e w =
     (let now = clock w;
          elapsed = now - LAST_CALL w;
          w1 = (if elapsed < min_interval
                then time_sleep (min_interval - elapsed) (oversleep e) w
                else w);
          w2 = w1\<lparr>clock := clock w1 + lag e\<rparr>
      in w2\<lparr>LAST_CALL := clock w2\<rparr>)"

section \<open>Upstream fetcher\<close>

definition rstrip_slash :: "pystr \<Rightarrow> pystr" where
  "rstrip_slash s = rev (dropWhile (\<lambda>c. c = 47) (rev s))"

definition user_agent :: pystr where
  "user_agent = ascii (''Mozilla/5.0 (Windows NT 10.0; Win64; x64) '' @
     ''AppleWebKit/537.36 (KHTML, like Gecko) '' @
     ''Chrome/140.0.0.0 Safari/537.36'')"

definition raise_for_status :: "http_response \<Rightarrow> exn + unit" where
  "raise_for_status resp =
     (if 400 \<le> status_code resp \<and> status_code resp < 600
      then Inl (RequestException (http_error_message resp))
      else Inr ())"

definition fetch_upstream :: "config \<Rightarrow> env \<Rightarrow> pystr \<Rightarrow> world \<Rightarrow> (exn + pystr) \<times> world" where
  "fetch_upstream cfg e query_value w =
     (if \<not> ALLOW_UPSTREAM cfg
      then (Inl (PermissionError (ascii ''Upstream fetching disabled.'')), w)
      else
        let w1 = rate_limit_wait (MIN_INTERVAL cfg) e w;
            req = \<lparr>url = rstrip_slash (TARGET_BASE cfg) @ TARGET_PATH cfg,
                   headers = [(''User-Agent'', user_agent),
                              (''Referer'', rstrip_slash (TARGET_BASE cfg) @ ascii ''/''),
                              (''Accept-Language'', ascii ''en-US,en;q=0.9'')],
                   form_data = [(''search_query'', query_value)],
                   timeout = 20\<rparr>;
            w2 = w1\<lparr>posted := posted w1 @ [req]\<rparr>
        in case post e req of
             Inl ex \<Rightarrow> (Inl ex, w2)
           | Inr resp \<Rightarrow>
               (case raise_for_status resp of
                  Inl ex \<Rightarrow> (Inl ex, w2)
                | Inr _ \<Rightarrow> (Inr (body_text resp), w2)))"

section \<open>Table parser\<close>

text \<open>
  The tree that \<open>BeautifulSoup(html, "html.parser")\<close> builds: an element with its name,
  the values of its \<open>class\<close> attribute (a list, as the library stores them) and its
  children; a text node; and a string that \<open>get_text\<close> leaves out, such as a comment.
  The other attributes are never read by the code.
\<close>

datatype node = Tag pystr "pystr list" "node list" | Text pystr | Comment pystr

fun descendants :: "node \<Rightarrow> node list" where
  "descendants (Tag n cs ks) = concat (map (\<lambda>k. k # descendants k) ks)"
| "descendants (Text s) = []"
| "descendants (Comment s) = []"

fun is_tag :: "pystr \<Rightarrow> node \<Rightarrow> bool" where
  "is_tag nm (Tag n cs ks) = (n = nm)"
| "is_tag nm (Text s) = False"
| "is_tag nm (Comment s) = False"

fun has_class :: "pystr \<Rightarrow> node \<Rightarrow> bool" where
  "has_class c (Tag n cs ks) = (c \<in> set cs)"
| "has_class c (Text s) = False"
| "has_class c (Comment s) = False"

text \<open>
  \<open>find\<close> and \<open>find_all\<close> search the descendants in document order. A \<open>class\<close>
  filter given as a string is met by an element one of whose class values is that string.
\<close>

definition find_node :: "pystr \<Rightarrow> node \<Rightarrow> node option" where
  "find_node nm nd = List.find (is_tag nm) (descendants nd)"

definition find_class :: "pystr \<Rightarrow> pystr \<Rightarrow> node \<Rightarrow> node option" where
  "find_class nm c nd = List.find (\<lambda>k. is_tag nm k \<and> has_class c k) (descendants nd)"

definition find_all :: "pystr \<Rightarrow> node \<Rightarrow> node list" where
  "find_all nm nd = filter (is_tag nm) (descendants nd)"

text \<open>
  \<open>get_text(strip=True)\<close> joins the text nodes below an element, each one stripped and
  left out when nothing remains.
\<close>

fun all_strings :: "node \<Rightarrow> pystr list" where
  "all_strings (Tag n cs ks) = concat (map all_strings ks)"
| "all_strings (Text s) = (if strip s = [] then [] else [strip s])"
| "all_strings (Comment s) = []"

definition get_text :: "node \<Rightarrow> pystr" where
  "get_text nd = concat (all_strings nd)"

record entry =
  mobile :: "pystr option"
  name :: "pystr option"
  cnic :: "pystr option"
  address :: "pystr option"

type_synonym key = "pystr option \<times> pystr option \<times> pystr option"

text \<open>The loop over the rows, with \<open>results\<close> and \<open>seen\<close> as its state.\<close>

fun parse_rows :: "node list \<Rightarrow> entry list \<Rightarrow> key set \<Rightarrow> entry list" where
  "parse_rows [] results seen = results"
| "parse_rows (tr # trs) results seen =
     (let cols = map get_text (find_all (ascii ''td'') tr);
          mobile = (if length cols > 0 then Some (cols ! 0) else None);
          name = (if length cols > 1 then Some (cols ! 1) else None);
          cnic = (if length cols > 2 then Some (cols ! 2) else None);
          address = (if length cols > 3 then Some (cols ! 3) else None);
          key = (mobile, cnic, name)
      in if key \<in> seen then parse_rows trs results seen
         else parse_rows trs
                (results @ [\<lparr>mobile = mobile, name = name, cnic = cnic, address = address\<rparr>])
                (insert key seen))"

text \<open>
  \<open>parse_table\<close>; its first argument is the HTML parser of the library,
  \<open>BeautifulSoup(html, "html.parser")\<close>, which returns the tree or raises. The source
  does not catch the exception, so \<open>parse_table\<close> raises it too.
\<close>

definition parse_table :: "(pystr \<Rightarrow> exn + node) \<Rightarrow> pystr \<Rightarrow> exn + entry list" where
  "parse_table bs html =
     (case bs html of
        Inl ex \<Rightarrow> Inl ex
      | Inr soup \<Rightarrow>
          (case (case find_class (ascii ''table'') (ascii ''api-response'') soup of
                   Some t \<Rightarrow> Some t
                 | None \<Rightarrow> find_node (ascii ''table'') soup) of
             None \<Rightarrow> Inr []
           | Some table \<Rightarrow>
               (case find_node (ascii ''tbody'') table of
                  None \<Rightarrow> Inr []
                | Some tbody \<Rightarrow> Inr (parse_rows (find_all (ascii ''tr'') tbody) [] {}))))"

text \<open>
  Names for what the claims speak about: the table the parser selects, the rows it
  iterates over, the cell texts of a row, the record built from a row and its
  deduplication key.
\<close>

definition selected_table :: "node \<Rightarrow> node option" where
  "selected_table soup =
     (case find_class (ascii ''table'') (ascii ''api-response'') soup of
        Some t \<Rightarrow> Some t
      | None \<Rightarrow> find_node (ascii ''table'') soup)"

definition table_rows :: "node \<Rightarrow> node list" where
  "table_rows soup =
     (case selected_table soup of
        None \<Rightarrow> []
      | Some table \<Rightarrow>
          (case find_node (ascii ''tbody'') table of
             None \<Rightarrow> []
           | Some tbody \<Rightarrow> find_all (ascii ''tr'') tbody))"

definition row_cells :: "node \<Rightarrow> pystr list" where
  "row_cells tr = map get_text (find_all (ascii ''td'') tr)"

definition row_entry :: "node \<Rightarrow> entry" where
  "row_entry tr =
     (let cols = row_cells tr in
      \<lparr>mobile = (if length cols > 0 then Some (cols ! 0) else None),
       name = (if length cols > 1 then Some (cols ! 1) else None),
       cnic = (if length cols > 2 then Some (cols ! 2) else None),
       address = (if length cols > 3 then Some (cols ! 3) else None)\<rparr>)"

definition entry_key :: "entry \<Rightarrow> key" where
  "entry_key e = (mobile e, cnic e, name e)"

text \<open>
  The specification of the deduplication: keep an entry when its key is neither in
  \<open>seen\<close> nor the key of an earlier entry.
\<close>

fun first_seen :: "entry list \<Rightarrow> key set \<Rightarrow> entry list" where
  "first_seen [] seen = []"
| "first_seen (e # es) seen =
     (if entry_key e \<in> seen then first_seen es seen
      else e # first_seen es (insert (entry_key e) seen))"

section \<open>Response assembly and the lookup route\<close>

datatype json = JNull | JString pystr | JInt nat | JArray "json list"
  | JObject "(string \<times> json) list"

definition json_opt :: "pystr option \<Rightarrow> json" where
  "json_opt v = (case v of None \<Rightarrow> JNull | Some s \<Rightarrow> JString s)"

definition entry_json :: "entry \<Rightarrow> json" where
  "entry_json e = JObject [(''mobile'', json_opt (mobile e)), (''name'', json_opt (name e)),
     (''cnic'', json_opt (cnic e)), (''address'', json_opt (address e))]"

definition make_response_object :: "pystr \<Rightarrow> string \<Rightarrow> entry list \<Rightarrow> json" where
  "make_response_object query qtype results =
     JObject [(''query'', JString query),
              (''query_type'', JString (ascii qtype)),
              (''results_count'', JInt (length results)),
              (''results'', JArray (map entry_json results)),
              (''developer'', JString DEVELOPER)]"

text \<open>
  A response of the route: the object handed to \<open>respond_json\<close>, the \<open>pretty\<close> flag and
  the status code (200 when the route returns the response alone).
\<close>

record response =
  body :: json
  pretty :: bool
  status :: nat

definition respond_json :: "json \<Rightarrow> bool \<Rightarrow> nat \<Rightarrow> response" where
  "respond_json obj p code = \<lparr>body = obj, pretty = p, status = code\<rparr>"

text \<open>Python's \<open>a or b\<close> on optional strings: \<open>None\<close> and the empty string are false.\<close>

definition truthy :: "pystr option \<Rightarrow> bool" where
  "truthy v = (case v of None \<Rightarrow> False | Some s \<Rightarrow> s \<noteq> [])"

definition py_or :: "pystr option \<Rightarrow> pystr option \<Rightarrow> pystr option" where
  "py_or a b = (if truthy a then a else b)"

definition fetch_failed :: "exn \<Rightarrow> bool \<Rightarrow> response" where
  "fetch_failed ex p =
     respond_json (JObject [(''error'', JString (ascii ''Fetch failed'')),
                            (''detail'', JString (str_of_exn ex)),
                            (''developer'', JString DEVELOPER)]) p 500"

definition api_lookup_get ::
  "config \<Rightarrow> env \<Rightarrow> (pystr \<Rightarrow> exn + node) \<Rightarrow> (string \<rightharpoonup> pystr) \<Rightarrow> world
     \<Rightarrow> response \<times> world" where
  "api_lookup_get cfg e bs args w =
     (let q = py_or (py_or (args ''query'') (args ''q'')) (args ''value'');
          p = (args ''pretty'' \<in> {Some (ascii ''1''), Some (ascii ''true''), Some (ascii ''True'')})
      in case (if truthy q then q else None) of
           None \<Rightarrow>
             (respond_json (JObject [(''error'', JString (ascii ''Use ?query=<mobile or cnic>'')),
                                     (''developer'', JString DEVELOPER)]) p 400, w)
         | Some qv \<Rightarrow>
             (case classify_query qv of
                Inl ex \<Rightarrow> (fetch_failed ex p, w)
              | Inr (qtype, normalized) \<Rightarrow>
                  (case fetch_upstream cfg e normalized w of
                     (Inl ex, w') \<Rightarrow> (fetch_failed ex p, w')
                   | (Inr html, w') \<Rightarrow>
                       (case parse_table bs html of
                          Inl ex \<Rightarrow> (fetch_failed ex p, w')
                        | Inr results \<Rightarrow>
                            (respond_json
                               (make_response_object normalized qtype results) p 200,
                             w')))))"

text \<open>Names for the two values the route reads from the query string.\<close>

definition lookup_query :: "(string \<rightharpoonup> pystr) \<Rightarrow> pystr option" where
  "lookup_query args = py_or (py_or (args ''query'') (args ''q'')) (args ''value'')"

definition lookup_pretty :: "(string \<rightharpoonup> pystr) \<Rightarrow> bool" where
  "lookup_pretty args \<longleftrightarrow>
     args ''pretty'' \<in> {Some (ascii ''1''), Some (ascii ''true''), Some (ascii ''True'')}"

section \<open>Example inputs\<close>

definition cell :: "string \<Rightarrow> node" where
  "cell s = Tag (ascii ''td'') [] [Text (ascii s)]"

definition table_row :: "node list \<Rightarrow> node" where
  "table_row cells = Tag (ascii ''tr'') [] cells"

definition document :: "node list \<Rightarrow> node" where
  "document ks = Tag (ascii ''[document]'') [] ks"

definition row_lahore :: node where
  "row_lahore = table_row [cell '' 03001234567 '', cell ''Ali'', cell ''1234567890123'', cell ''Lahore'']"

definition row_karachi :: node where
  "row_karachi = table_row [cell ''03001234567'', cell ''Ali'', cell ''1234567890123'', cell ''Karachi'']"

definition row_short :: node where
  "row_short = table_row [cell ''03007654321'', cell ''Sara'']"

definition soup_duplicates :: node where
  "soup_duplicates = document
     [Tag (ascii ''table'') [ascii ''api-response'']
        [Tag (ascii ''tbody'') [] [row_lahore, row_karachi]]]"

definition soup_distinct :: node where
  "soup_distinct = document
     [Tag (ascii ''table'') [] [Tag (ascii ''tbody'') [] [row_lahore, row_short]]]"

definition soup_no_tbody :: node where
  "soup_no_tbody = document [Tag (ascii ''table'') [ascii ''api-response''] [row_lahore]]"

definition soup_no_table :: node where
  "soup_no_table = document [Tag (ascii ''p'') [] [Text (ascii ''No records found'')]]"

text \<open>
  The pages the example trees are parsed from, and a parser that is right on them.
\<close>

definition html_duplicates :: pystr where
  "html_duplicates = ascii (''<table class=api-response><tbody>'' @
     ''<tr><td> 03001234567 </td><td>Ali</td><td>1234567890123</td><td>Lahore</td></tr>'' @
     ''<tr><td>03001234567</td><td>Ali</td><td>1234567890123</td><td>Karachi</td></tr>'' @
     ''</tbody></table>'')"

definition html_distinct :: pystr where
  "html_distinct = ascii (''<table><tbody>'' @
     ''<tr><td> 03001234567 </td><td>Ali</td><td>1234567890123</td><td>Lahore</td></tr>'' @
     ''<tr><td>03007654321</td><td>Sara</td></tr>'' @
     ''</tbody></table>'')"

definition html_no_tbody :: pystr where
  "html_no_tbody = ascii (''<table class=api-response>'' @
     ''<tr><td> 03001234567 </td><td>Ali</td><td>1234567890123</td><td>Lahore</td></tr>'' @
     ''</table>'')"

definition html_no_table :: pystr where
  "html_no_table = ascii ''<p>No records found</p>''"

text \<open>
  A page that \<open>html.parser\<close> rejects: the declaration scanner expects a name after
  \<open><![\<close> and fails with an \<open>AssertionError\<close>, which the library turns into
  \<open>ParserRejectedMarkup\<close> with the same message.
\<close>

definition html_rejected :: pystr where
  "html_rejected = ascii ''<![ x ]>''"

definition rejected_message :: pystr where
  "rejected_message = ascii ''expected name token at '' @ [39] @ ascii ''<![ x ]>'' @ [39]"

definition example_bs :: "pystr \<Rightarrow> exn + node" where
  "example_bs h =
     (if h = html_duplicates then Inr soup_duplicates
      else if h = html_distinct then Inr soup_distinct
      else if h = html_no_tbody then Inr soup_no_tbody
      else if h = html_no_table then Inr soup_no_table
      else if h = html_rejected then Inl (ParserRejectedMarkup rejected_message)
      else Inr (document [Text h]))"

definition config_offline :: config where
  "config_offline = \<lparr>TARGET_BASE = ascii ''https://pakistandatabase.com'',
     TARGET_PATH = ascii ''/databases/sim.php'', ALLOW_UPSTREAM = False, MIN_INTERVAL = 1\<rparr>"

definition config_online :: config where
  "config_online = config_offline\<lparr>ALLOW_UPSTREAM := True\<rparr>"

definition env_down :: env where
  "env_down = \<lparr>oversleep = 0, lag = 0,
     post = (\<lambda>r. Inl (RequestException (ascii ''Connection refused'')))\<rparr>"

text \<open>An upstream that answers every request with status 200 and the rejected page.\<close>

definition env_rejected :: env where
  "env_rejected = \<lparr>oversleep = 0, lag = 0,
     post = (\<lambda>r. Inr \<lparr>status_code = 200, body_text = html_rejected,
                           http_error_message = []\<rparr>)\<rparr>"

definition world_start :: world where
  "world_start = \<lparr>clock = 100, LAST_CALL = 0, posted = []\<rparr>"

section \<open>Properties of the classifier\<close>

subsection \<open>Stripping and matching\<close>

lemma dropWhile_fix: "xs = [] \<or> \<not> P (hd xs) \<Longrightarrow> dropWhile P xs = xs"
  by (cases xs) auto

lemma last_dropWhile_rev:
  assumes "dropWhile P (rev t) \<noteq> []"
  shows "last (dropWhile P (rev t)) = hd t"
proof -
  have "rev t = takeWhile P (rev t) @ dropWhile P (rev t)" by simp
  then have "last (rev t) = last (dropWhile P (rev t))"
    using assms by (metis last_appendR)
  moreover have "t \<noteq> []" using assms by auto
  ultimately show ?thesis by (simp add: last_rev)
qed

lemma strip_ends:
  assumes "strip s \<noteq> []"
  shows "\<not> isspace (hd (strip s))" and "\<not> isspace (last (strip s))"
proof -
  let ?t = "dropWhile isspace s"
  let ?u = "dropWhile isspace (rev ?t)"
  have u: "?u \<noteq> []" using assms unfolding strip_def rev_is_Nil_conv .
  have t: "?t \<noteq> []"
  proof
    assume a: "?t = []"
    have "?u = dropWhile isspace (rev [])" by (simp only: a)
    then have "?u = []" by (simp only: rev.simps dropWhile.simps)
    with u show False by (rule notE)
  qed
  have "hd (strip s) = last ?u" using u by (simp add: strip_def hd_rev)
  also have "\<dots> = hd ?t" using u by (rule last_dropWhile_rev)
  finally show "\<not> isspace (hd (strip s))" using t hd_dropWhile by metis
  have "last (strip s) = hd ?u" using u by (simp add: strip_def last_rev)
  then show "\<not> isspace (last (strip s))" using u hd_dropWhile by metis
qed

lemma strip_fix:
  assumes "s = [] \<or> (\<not> isspace (hd s) \<and> \<not> isspace (last s))"
  shows "strip s = s"
proof (cases "s = []")
  case True
  then show ?thesis by (simp add: strip_def)
next
  case False
  with assms have h: "\<not> isspace (hd s)" and l: "\<not> isspace (last s)" by auto
  have "dropWhile isspace s = s" using h by (simp add: dropWhile_fix)
  moreover have "dropWhile isspace (rev s) = rev s"
    using l False by (simp add: dropWhile_fix hd_rev)
  ultimately show ?thesis by (simp add: strip_def)
qed

lemma strip_idem: "strip (strip s) = strip s"
  by (rule strip_fix) (use strip_ends in blast)

lemma match_lits: "list_all2 atom_match (map Lit l) xs \<longleftrightarrow> xs = l"
proof (induction l arbitrary: xs)
  case Nil
  then show ?case by simp
next
  case (Cons a l)
  then show ?case by (cases xs) auto
qed

lemma match_digits:
  "list_all2 atom_match (replicate n Digit) ds \<longleftrightarrow> length ds = n \<and> (\<forall>c\<in>set ds. isdecimal c)"
proof (induction n arbitrary: ds)
  case 0
  then show ?case by auto
next
  case (Suc n)
  then show ?case by (cases ds) auto
qed

lemma fullmatch_lits_digits:
  "fullmatch (map Lit l @ replicate n Digit) v \<longleftrightarrow>
     (\<exists>ds. v = l @ ds \<and> length ds = n \<and> (\<forall>c\<in>set ds. isdecimal c))"
  unfolding fullmatch_def list_all2_append1 match_lits match_digits
  by auto


lemma is_local_mobile_iff:
  "is_local_mobile v \<longleftrightarrow>
     (\<exists>ds. v = ascii ''03'' @ ds \<and> length ds = 9 \<and> (\<forall>c\<in>set ds. isdecimal c))"
  unfolding is_local_mobile_def by (rule fullmatch_lits_digits)

lemma is_mobile_iff:
  "is_mobile v \<longleftrightarrow>
     (\<exists>ds. v = ascii ''92'' @ ds \<and> length ds = 10 \<and> (\<forall>c\<in>set ds. isdecimal c))"
  unfolding is_mobile_def by (rule fullmatch_lits_digits)

lemma is_cnic_iff:
  "is_cnic v \<longleftrightarrow> length v = 13 \<and> (\<forall>c\<in>set v. isdecimal c)"
  unfolding is_cnic_def fullmatch_def by (rule match_digits)

lemma isdecimal_three: "isdecimal 51"
  by (simp add: isdecimal_def decimal_zeros_def)

lemma ascii_03: "ascii ''03'' = [48, 51]"
  by (simp add: ascii_def)

lemma ascii_92: "ascii ''92'' = [57, 50]"
  by (simp add: ascii_def)

lemma local_not_mobile: "is_local_mobile v \<Longrightarrow> \<not> is_mobile v"
  by (auto simp: is_local_mobile_iff is_mobile_iff ascii_03 ascii_92)

lemma local_rewritten_mobile:
  assumes "is_local_mobile v"
  shows "is_mobile (ascii ''92'' @ drop 1 v)"
proof -
  from assms obtain ds where v: "v = ascii ''03'' @ ds" and n: "length ds = 9"
    and d: "\<forall>c\<in>set ds. isdecimal c"
    by (auto simp: is_local_mobile_iff)
  have "drop 1 v = 51 # ds" by (simp add: v ascii_03)
  moreover have "length (51 # ds) = 10" using n by simp
  moreover have "\<forall>c\<in>set (51 # ds). isdecimal c" using d isdecimal_three by simp
  ultimately show ?thesis unfolding is_mobile_iff by blast
qed

lemma normalize_mobile_stripped:
  "is_mobile (normalize_mobile (strip s)) \<longleftrightarrow> is_mobile (strip s) \<or> is_local_mobile (strip s)"
  unfolding normalize_mobile_def Let_def strip_idem
  using local_rewritten_mobile local_not_mobile by auto

lemma classify_query_cases:
  "classify_query s =
     (if is_cnic (strip s) then Inr (''cnic'', strip s)
      else if is_mobile (strip s) then Inr (''mobile'', strip s)
      else if is_local_mobile (strip s) then Inr (''mobile'', ascii ''92'' @ drop 1 (strip s))
      else Inl (ValueError invalid_query_message))"
  unfolding classify_query_def normalize_mobile_def Let_def strip_idem
  using local_rewritten_mobile by auto


subsection \<open>The claims about the classifier\<close>

text \<open>
  C1. Whenever the trimmed input is \<open>03\<close> followed by exactly nine digits,
  \<open>classify_query\<close> returns the kind \<open>mobile\<close> and the value \<open>92\<close> followed by the ten
  digits that remain after the leading \<open>0\<close> (the \<open>3\<close> and the nine digits), a string of
  twelve characters.
\<close>

theorem classify_query_local_mobile:
  assumes "strip value0 = ascii ''03'' @ ds"
    and "length ds = 9"
    and "\<forall>c\<in>set ds. isdecimal c"
  shows "classify_query value0 = Inr (''mobile'', ascii ''92'' @ ascii ''3'' @ ds)
    \<and> ascii ''92'' @ ascii ''3'' @ ds = ascii ''92'' @ drop 1 (strip value0)
    \<and> length (ascii ''92'' @ ascii ''3'' @ ds) = 12"
proof -
  have loc: "is_local_mobile (strip value0)"
    unfolding is_local_mobile_iff using assms by blast
  have "length (strip value0) = 11"
    using assms by (simp add: ascii_03)
  then have "\<not> is_cnic (strip value0)"
    by (simp add: is_cnic_iff)
  moreover have "\<not> is_mobile (strip value0)"
    using loc by (rule local_not_mobile)
  ultimately have "classify_query value0 = Inr (''mobile'', ascii ''92'' @ drop 1 (strip value0))"
    using loc by (simp add: classify_query_cases)
  moreover have "drop 1 (strip value0) = ascii ''3'' @ ds"
    using assms by (simp add: ascii_def)
  moreover have "length (ascii ''92'' @ ascii ''3'' @ ds) = 12"
    using assms by (simp add: ascii_def)
  ultimately show ?thesis by simp
qed

theorem classify_query_local_mobile_witness:
  "strip (ascii ''03001234567'') = ascii ''03'' @ ascii ''001234567''
   \<and> length (ascii ''001234567'') = 9
   \<and> list_all isdecimal (ascii ''001234567'')
   \<and> classify_query (ascii ''03001234567'') = Inr (''mobile'', ascii ''923001234567'')"
proof -
  have a: "strip (ascii ''03001234567'') = ascii ''03'' @ ascii ''001234567''"
    by (simp add: strip_def ascii_def isspace_def)
  have b: "length (ascii ''001234567'') = 9"
    by (simp add: ascii_def)
  have c: "\<forall>c\<in>set (ascii ''001234567''). isdecimal c"
    by (simp add: ascii_def isdecimal_def decimal_zeros_def)
  have "ascii ''92'' @ ascii ''3'' @ ascii ''001234567'' = ascii ''923001234567''"
    by (simp add: ascii_def)
  then show ?thesis
    using a b c classify_query_local_mobile [OF a b c] by (simp add: list_all_iff)
qed

text \<open>
  C2. Whenever the trimmed input consists of exactly thirteen decimal digits,
  \<open>classify_query\<close> returns the national-identity kind (the string \<open>cnic\<close> in the source)
  together with the trimmed value, unchanged.
\<close>

theorem classify_query_cnic:
  assumes "length (strip value0) = 13"
    and "\<forall>c\<in>set (strip value0). isdecimal c"
  shows "classify_query value0 = Inr (''cnic'', strip value0)"
proof -
  have "is_cnic (strip value0)"
    unfolding is_cnic_iff using assms by simp
  then show ?thesis by (simp add: classify_query_cases)
qed

theorem classify_query_cnic_witness:
  "length (strip (ascii '' 1234567890123 '')) = 13
   \<and> list_all isdecimal (strip (ascii '' 1234567890123 ''))
   \<and> classify_query (ascii '' 1234567890123 '') = Inr (''cnic'', ascii ''1234567890123'')"
proof -
  have s: "strip (ascii '' 1234567890123 '') = ascii ''1234567890123''"
    by (simp add: strip_def ascii_def isspace_def)
  have a: "length (strip (ascii '' 1234567890123 '')) = 13"
    unfolding s by (simp add: ascii_def)
  have b: "\<forall>c\<in>set (strip (ascii '' 1234567890123 '')). isdecimal c"
    unfolding s by (simp add: ascii_def isdecimal_def decimal_zeros_def)
  show ?thesis
    using a b classify_query_cnic [OF a b] by (simp add: s list_all_iff)
qed

text \<open>
  C3. \<open>classify_query\<close> fails exactly when the whole trimmed input is none of: thirteen
  decimal digits; \<open>03\<close> followed by nine digits; \<open>92\<close> followed by ten digits. The failure
  is always the \<open>ValueError\<close> whose message names the two accepted formats, CNIC and
  mobile. A string that merely contains a match (fourteen digits, say) is rejected.
\<close>

theorem classify_query_error_iff:
  "((\<exists>e. classify_query value0 = Inl e) \<longleftrightarrow>
      \<not> ((length (strip value0) = 13 \<and> (\<forall>c\<in>set (strip value0). isdecimal c))
        \<or> (\<exists>ds. strip value0 = ascii ''03'' @ ds \<and> length ds = 9 \<and> (\<forall>c\<in>set ds. isdecimal c))
        \<or> (\<exists>ds. strip value0 = ascii ''92'' @ ds \<and> length ds = 10 \<and> (\<forall>c\<in>set ds. isdecimal c))))
   \<and> (\<forall>e. classify_query value0 = Inl e \<longrightarrow>
        e = ValueError (ascii
          ''Invalid query. Use CNIC (13 digits) or mobile (03XXXXXXXXX / 92XXXXXXXXXX).''))"
  unfolding is_cnic_iff [symmetric] is_local_mobile_iff [symmetric] is_mobile_iff [symmetric]
  by (simp add: classify_query_cases invalid_query_message_def)

theorem classify_query_error_iff_witness:
  "classify_query (ascii ''12345678901234'') = Inl (ValueError (ascii
      ''Invalid query. Use CNIC (13 digits) or mobile (03XXXXXXXXX / 92XXXXXXXXXX).''))
   \<and> classify_query (ascii ''abc'') = Inl (ValueError (ascii
      ''Invalid query. Use CNIC (13 digits) or mobile (03XXXXXXXXX / 92XXXXXXXXXX).''))"
proof -
  have s1: "strip (ascii ''12345678901234'') = ascii ''12345678901234''"
    by (simp add: strip_def ascii_def isspace_def)
  have s2: "strip (ascii ''abc'') = ascii ''abc''"
    by (simp add: strip_def ascii_def isspace_def)
  have "\<exists>e. classify_query (ascii ''12345678901234'') = Inl e"
    using classify_query_error_iff [of "ascii ''12345678901234''"]
    unfolding s1 by (simp add: ascii_def)
  moreover have "\<exists>e. classify_query (ascii ''abc'') = Inl e"
    using classify_query_error_iff [of "ascii ''abc''"]
    unfolding s2 by (simp add: ascii_def)
  ultimately show ?thesis
    using classify_query_error_iff [of "ascii ''12345678901234''"]
      classify_query_error_iff [of "ascii ''abc''"]
    by blast
qed

section \<open>Properties of the rate limiter and the fetcher\<close>

lemma rate_limit_wait_step:
  assumes "0 \<le> oversleep e" and "0 \<le> lag e"
  shows "LAST_CALL (rate_limit_wait m e w) = clock (rate_limit_wait m e w)"
    and "LAST_CALL w + m \<le> LAST_CALL (rate_limit_wait m e w)"
  using assms by (auto simp: rate_limit_wait_def time_sleep_def Let_def)

text \<open>
  C8. Take two calls of \<open>rate_limit_wait\<close> in sequence, any amount of time \<open>gap\<close> passing
  between them, on a clock that does not run backwards and with a \<open>time.sleep\<close> that
  lasts at least as long as asked. Each call records the clock as its timestamp when it
  returns, and the second timestamp is at least \<open>MIN_INTERVAL\<close> later than the first:
  when less than \<open>MIN_INTERVAL\<close> has elapsed since the first timestamp the second call
  sleeps for the remainder, otherwise it does not sleep.
\<close>

theorem rate_limit_wait_spacing:
  assumes "0 \<le> oversleep e1" and "0 \<le> lag e1"
    and "0 \<le> oversleep e2" and "0 \<le> lag e2"
    and "0 \<le> gap"
    and "w1 = rate_limit_wait m e1 w0"
    and "w2 = rate_limit_wait m e2 (w1\<lparr>clock := clock w1 + gap\<rparr>)"
  shows "LAST_CALL w1 = clock w1 \<and> LAST_CALL w2 = clock w2
    \<and> LAST_CALL w1 + m \<le> LAST_CALL w2
    \<and> (clock w1 + gap - LAST_CALL w1 < m \<longrightarrow>
          clock w2 = LAST_CALL w1 + m + oversleep e2 + lag e2)
    \<and> (\<not> clock w1 + gap - LAST_CALL w1 < m \<longrightarrow> clock w2 = clock w1 + gap + lag e2)"
proof -
  let ?w = "w1\<lparr>clock := clock w1 + gap\<rparr>"
  have a: "LAST_CALL w1 = clock w1"
    unfolding assms(6) using assms(1,2) by (rule rate_limit_wait_step(1))
  have b: "LAST_CALL w2 = clock w2"
    unfolding assms(7) using assms(3,4) by (rule rate_limit_wait_step(1))
  have "LAST_CALL ?w + m \<le> LAST_CALL w2"
    unfolding assms(7) using assms(3,4) by (rule rate_limit_wait_step(2))
  then have c: "LAST_CALL w1 + m \<le> LAST_CALL w2" by simp
  have d: "clock w1 + gap - LAST_CALL w1 < m \<longrightarrow>
          clock w2 = LAST_CALL w1 + m + oversleep e2 + lag e2"
    unfolding assms(7) by (simp add: rate_limit_wait_def time_sleep_def Let_def)
  have e: "\<not> clock w1 + gap - LAST_CALL w1 < m \<longrightarrow> clock w2 = clock w1 + gap + lag e2"
    unfolding assms(7) by (simp add: rate_limit_wait_def time_sleep_def Let_def)
  from a b c d e show ?thesis by blast
qed

theorem rate_limit_wait_spacing_witness:
  "0 \<le> oversleep env_down \<and> 0 \<le> lag env_down \<and> (0::real) \<le> 1/4
   \<and> rate_limit_wait 1 env_down world_start = \<lparr>clock = 100, LAST_CALL = 100, posted = []\<rparr>
   \<and> rate_limit_wait 1 env_down \<lparr>clock = 100 + 1/4, LAST_CALL = 100, posted = []\<rparr>
       = \<lparr>clock = 101, LAST_CALL = 101, posted = []\<rparr>
   \<and> LAST_CALL \<lparr>clock = 100, LAST_CALL = 100, posted = []\<rparr> + 1
       \<le> LAST_CALL \<lparr>clock = 101, LAST_CALL = 101, posted = []\<rparr>"
proof -
  let ?w1 = "\<lparr>clock = 100, LAST_CALL = 100, posted = []\<rparr> :: world"
  let ?w2 = "\<lparr>clock = 101, LAST_CALL = 101, posted = []\<rparr> :: world"
  have o: "0 \<le> oversleep env_down" and l: "0 \<le> lag env_down"
    by (simp_all add: env_down_def)
  have g: "(0::real) \<le> 1/4" by simp
  have c1: "rate_limit_wait 1 env_down world_start = ?w1"
    by (simp add: rate_limit_wait_def env_down_def world_start_def time_sleep_def Let_def)
  have c2: "rate_limit_wait 1 env_down \<lparr>clock = 100 + 1/4, LAST_CALL = 100, posted = []\<rparr> = ?w2"
    by (simp add: rate_limit_wait_def env_down_def time_sleep_def Let_def)
  have a: "?w1 = rate_limit_wait 1 env_down world_start"
    by (simp only: c1)
  have b: "?w2 = rate_limit_wait 1 env_down (?w1\<lparr>clock := clock ?w1 + 1/4\<rparr>)"
    using c2 by simp
  have c3: "LAST_CALL ?w1 + 1 \<le> LAST_CALL ?w2"
    using rate_limit_wait_spacing [OF o l o l g a b] by blast
  show ?thesis
    by (intro conjI o l g c1 c2 c3)
qed

text \<open>
  C9. When \<open>ALLOW_UPSTREAM\<close> is false, \<open>fetch_upstream\<close> raises the error
  \<open>PermissionError("Upstream fetching disabled.")\<close> and leaves the state as it was: the
  rate limiter's timestamp is not touched, nothing is slept, and no request is posted.
\<close>

theorem fetch_upstream_disabled:
  assumes "\<not> ALLOW_UPSTREAM cfg"
  shows "fetch_upstream cfg e query_value w
           = (Inl (PermissionError (ascii ''Upstream fetching disabled.'')), w)"
  using assms by (simp add: fetch_upstream_def)

theorem fetch_upstream_disabled_witness:
  "\<not> ALLOW_UPSTREAM config_offline
   \<and> fetch_upstream config_offline env_down (ascii ''923001234567'') world_start
       = (Inl (PermissionError (ascii ''Upstream fetching disabled.'')), world_start)"
proof -
  have a: "\<not> ALLOW_UPSTREAM config_offline" by (simp add: config_offline_def)
  show ?thesis
    using a fetch_upstream_disabled [OF a] by simp
qed

text \<open>With the flag on, the limiter is acquired and exactly one request is posted.\<close>

lemma fetch_upstream_enabled:
  assumes "ALLOW_UPSTREAM cfg"
  shows "length (posted (snd (fetch_upstream cfg e query_value w))) = Suc (length (posted w))"
    and "LAST_CALL (snd (fetch_upstream cfg e query_value w))
           = LAST_CALL (rate_limit_wait (MIN_INTERVAL cfg) e w)"
  using assms
  by (auto simp: fetch_upstream_def Let_def rate_limit_wait_def time_sleep_def
      split: sum.splits)

section \<open>Properties of the table parser\<close>

lemma parse_rows_first_seen:
  "parse_rows trs results seen = results @ first_seen (map row_entry trs) seen"
proof (induction trs arbitrary: results seen)
  case Nil
  show ?case by simp
next
  case (Cons tr trs)
  show ?case
    by (simp add: Cons.IH Let_def row_entry_def row_cells_def entry_key_def)
qed

lemma parse_table_rows:
  "bs html = Inr soup \<Longrightarrow> parse_table bs html = Inr (parse_rows (table_rows soup) [] {})"
  by (simp add: parse_table_def table_rows_def selected_table_def
      split: option.splits)

lemma parse_table_first_seen:
  "bs html = Inr soup \<Longrightarrow>
     parse_table bs html = Inr (first_seen (map row_entry (table_rows soup)) {})"
  by (simp add: parse_table_rows parse_rows_first_seen)

lemma parse_table_rejected: "bs html = Inl ex \<Longrightarrow> parse_table bs html = Inl ex"
  by (simp add: parse_table_def)


lemma first_seen_distinct:
  "distinct (map entry_key es) \<Longrightarrow> \<forall>e\<in>set es. entry_key e \<notin> seen \<Longrightarrow> first_seen es seen = es"
proof (induction es arbitrary: seen)
  case Nil
  show ?case by simp
next
  case (Cons e es)
  have "\<forall>x\<in>set es. entry_key x \<notin> insert (entry_key e) seen"
  proof
    fix x assume x: "x \<in> set es"
    have "entry_key e \<notin> entry_key ` set es" using Cons.prems(1) by simp
    then have "entry_key x \<noteq> entry_key e" using x by (metis imageI)
    moreover have "entry_key x \<notin> seen" using Cons.prems(2) x by simp
    ultimately show "entry_key x \<notin> insert (entry_key e) seen" by simp
  qed
  moreover have "distinct (map entry_key es)"
    using Cons.prems by simp
  ultimately have "first_seen es (insert (entry_key e) seen) = es"
    by (rule Cons.IH [rotated])
  then show ?case using Cons.prems by simp
qed

lemma first_seen_filter:
  "filter (\<lambda>e. entry_key e = k) (first_seen es seen) =
     (if k \<in> seen then []
      else case List.find (\<lambda>e. entry_key e = k) es of None \<Rightarrow> [] | Some e \<Rightarrow> [e])"
proof (induction es arbitrary: seen)
  case Nil
  show ?case by simp
next
  case (Cons e es)
  show ?case by (auto simp: Cons.IH)
qed

lemma find_map_entry:
  "List.find P (map f xs) = map_option f (List.find (\<lambda>x. P (f x)) xs)"
  by (induction xs) auto

lemma row_entry_fields:
  "[mobile (row_entry tr), name (row_entry tr), cnic (row_entry tr), address (row_entry tr)]
     = take 4 (map Some (row_cells tr) @ replicate 4 None)"
proof -
  obtain cols where c: "row_cells tr = cols" by simp
  consider "cols = []" | a where "cols = [a]" | a b where "cols = [a, b]"
    | a b c where "cols = [a, b, c]" | a b c d r where "cols = a # b # c # d # r"
    by (metis list.exhaust)
  then show ?thesis
    by cases (simp_all add: row_entry_def c Let_def numeral_eq_Suc)
qed



subsection \<open>The claims about the table parser\<close>

lemmas example_defs = soup_duplicates_def soup_distinct_def soup_no_tbody_def soup_no_table_def
  document_def table_row_def cell_def row_lahore_def row_karachi_def row_short_def

lemmas parser_defs = find_node_def find_class_def find_all_def get_text_def strip_def
  isspace_def selected_table_def table_rows_def row_cells_def row_entry_def entry_key_def
  ascii_def Let_def

lemma example_bs_pages:
  "example_bs html_duplicates = Inr soup_duplicates"
  "example_bs html_distinct = Inr soup_distinct"
  "example_bs html_no_tbody = Inr soup_no_tbody"
  "example_bs html_no_table = Inr soup_no_table"
  "example_bs html_rejected = Inl (ParserRejectedMarkup rejected_message)"
  by (simp_all add: example_bs_def html_duplicates_def html_distinct_def html_no_tbody_def
      html_no_table_def html_rejected_def ascii_def)

text \<open>
  C4. Rows are deduplicated by the key (mobile, cnic, name), the first occurrence
  winning: for every key, the records of the result with that key are exactly the record
  of the first row of the table body with that key, address included, whatever the
  addresses of the later rows with the same key. In particular two rows with one key,
  identical or differing in their address only, give the one record of the first.
\<close>

theorem parse_table_dedup:
  assumes "bs html = Inr soup"
  shows "(List.find (\<lambda>r. entry_key (row_entry r) = k) (table_rows soup) = Some r1 \<longrightarrow>
      (\<exists>rs. parse_table bs html = Inr rs
         \<and> filter (\<lambda>e. entry_key e = k) rs = [row_entry r1]))
   \<and> (table_rows soup = [r1, r2] \<and> entry_key (row_entry r1) = entry_key (row_entry r2) \<longrightarrow>
      parse_table bs html = Inr [row_entry r1])"
proof -
  note eq = parse_table_first_seen [of bs html soup, OF assms]
  have "\<exists>rs. parse_table bs html = Inr rs
         \<and> filter (\<lambda>e. entry_key e = k) rs = [row_entry r1]"
    if "List.find (\<lambda>r. entry_key (row_entry r) = k) (table_rows soup) = Some r1"
    using that by (simp add: eq first_seen_filter find_map_entry)
  moreover have "parse_table bs html = Inr [row_entry r1]"
    if "table_rows soup = [r1, r2]"
      and "entry_key (row_entry r1) = entry_key (row_entry r2)"
    using that by (simp add: eq)
  ultimately show ?thesis by blast
qed

theorem parse_table_dedup_witness:
  "example_bs html_duplicates = Inr soup_duplicates
   \<and> List.find (\<lambda>r. entry_key (row_entry r) = entry_key (row_entry row_karachi))
      (table_rows soup_duplicates) = Some row_lahore
   \<and> table_rows soup_duplicates = [row_lahore, row_karachi]
   \<and> entry_key (row_entry row_lahore) = entry_key (row_entry row_karachi)
   \<and> address (row_entry row_lahore) \<noteq> address (row_entry row_karachi)
   \<and> parse_table example_bs html_duplicates = Inr [row_entry row_lahore]
   \<and> address (row_entry row_lahore) = Some (ascii ''Lahore'')"
proof -
  have p: "example_bs html_duplicates = Inr soup_duplicates"
    by (rule example_bs_pages)
  have a: "List.find (\<lambda>r. entry_key (row_entry r) = entry_key (row_entry row_karachi))
      (table_rows soup_duplicates) = Some row_lahore"
    by (simp add: example_defs parser_defs)
  have b: "table_rows soup_duplicates = [row_lahore, row_karachi]"
    by (simp add: example_defs parser_defs)
  have c: "entry_key (row_entry row_lahore) = entry_key (row_entry row_karachi)"
    by (simp add: example_defs parser_defs)
  have d: "address (row_entry row_lahore) \<noteq> address (row_entry row_karachi)"
    by (simp add: example_defs parser_defs)
  have e: "parse_table example_bs html_duplicates = Inr [row_entry row_lahore]"
    using parse_table_dedup [where bs = example_bs and html = html_duplicates, OF p,
        of _ row_lahore row_karachi] b c
    by blast
  have g: "address (row_entry row_lahore) = Some (ascii ''Lahore'')"
    by (simp add: example_defs parser_defs)
  show ?thesis
    by (intro conjI p a b c d e g)
qed

text \<open>
  C5. When the keys (mobile, cnic, name) of the rows of the table body are pairwise
  distinct, \<open>parse_table\<close> returns one record per row, in the order of the rows, and the
  fields of the i-th record are the stripped cell texts of the i-th row in column order
  (absent where the row has no such cell).
\<close>

theorem parse_table_distinct:
  assumes "bs html = Inr soup"
    and "distinct (map (\<lambda>r. entry_key (row_entry r)) (table_rows soup))"
  shows "\<exists>rs. parse_table bs html = Inr rs
    \<and> rs = map row_entry (table_rows soup)
    \<and> length rs = length (table_rows soup)
    \<and> (\<forall>i < length (table_rows soup).
          [mobile (rs ! i), name (rs ! i), cnic (rs ! i), address (rs ! i)]
          = take 4 (map Some (row_cells (table_rows soup ! i)) @ replicate 4 None))"
proof -
  have "distinct (map entry_key (map row_entry (table_rows soup)))"
    using assms(2) by (simp add: comp_def)
  then have eq: "parse_table bs html = Inr (map row_entry (table_rows soup))"
    by (simp add: parse_table_first_seen [of bs html soup, OF assms(1)] first_seen_distinct)
  show ?thesis
    unfolding eq by (simp add: row_entry_fields)
qed

theorem parse_table_distinct_witness:
  "example_bs html_distinct = Inr soup_distinct
   \<and> distinct (map (\<lambda>r. entry_key (row_entry r)) (table_rows soup_distinct))
   \<and> table_rows soup_distinct = [row_lahore, row_short]
   \<and> parse_table example_bs html_distinct = Inr
       [\<lparr>mobile = Some (ascii ''03001234567''), name = Some (ascii ''Ali''),
         cnic = Some (ascii ''1234567890123''), address = Some (ascii ''Lahore'')\<rparr>,
        \<lparr>mobile = Some (ascii ''03007654321''), name = Some (ascii ''Sara''),
         cnic = None, address = None\<rparr>]"
proof -
  have p: "example_bs html_distinct = Inr soup_distinct"
    by (rule example_bs_pages)
  have a: "distinct (map (\<lambda>r. entry_key (row_entry r)) (table_rows soup_distinct))"
    by (simp add: example_defs parser_defs)
  have b: "table_rows soup_distinct = [row_lahore, row_short]"
    by (simp add: example_defs parser_defs)
  have "parse_table example_bs html_distinct = Inr (map row_entry (table_rows soup_distinct))"
    using parse_table_distinct [where bs = example_bs and html = html_distinct, OF p a]
    by blast
  also have "map row_entry (table_rows soup_distinct) =
       [\<lparr>mobile = Some (ascii ''03001234567''), name = Some (ascii ''Ali''),
         cnic = Some (ascii ''1234567890123''), address = Some (ascii ''Lahore'')\<rparr>,
        \<lparr>mobile = Some (ascii ''03007654321''), name = Some (ascii ''Sara''),
         cnic = None, address = None\<rparr>]"
    by (simp add: example_defs parser_defs)
  finally have c: "parse_table example_bs html_distinct = Inr
       [\<lparr>mobile = Some (ascii ''03001234567''), name = Some (ascii ''Ali''),
         cnic = Some (ascii ''1234567890123''), address = Some (ascii ''Lahore'')\<rparr>,
        \<lparr>mobile = Some (ascii ''03007654321''), name = Some (ascii ''Sara''),
         cnic = None, address = None\<rparr>]" .
  show ?thesis
    by (intro conjI p a b c)
qed




text \<open>
  C10. When the selected table has no \<open>tbody\<close> element among its descendants,
  \<open>parse_table\<close> returns the empty list, whatever rows the table contains.
\<close>

theorem parse_table_no_tbody:
  assumes "bs html = Inr soup"
    and "selected_table soup = Some table"
    and "find_node (ascii ''tbody'') table = None"
  shows "parse_table bs html = Inr []"
  using assms by (simp add: parse_table_def selected_table_def)

theorem parse_table_no_tbody_witness:
  "example_bs html_no_tbody = Inr soup_no_tbody
   \<and> selected_table soup_no_tbody
       = Some (Tag (ascii ''table'') [ascii ''api-response''] [row_lahore])
   \<and> find_node (ascii ''tbody'') (Tag (ascii ''table'') [ascii ''api-response''] [row_lahore])
       = None
   \<and> find_all (ascii ''tr'') (Tag (ascii ''table'') [ascii ''api-response''] [row_lahore])
       = [row_lahore]
   \<and> parse_table example_bs html_no_tbody = Inr []"
proof -
  let ?table = "Tag (ascii ''table'') [ascii ''api-response''] [row_lahore]"
  have p: "example_bs html_no_tbody = Inr soup_no_tbody"
    by (rule example_bs_pages)
  have a: "selected_table soup_no_tbody = Some ?table"
    by (simp add: example_defs parser_defs)
  have b: "find_node (ascii ''tbody'') ?table = None"
    by (simp add: example_defs parser_defs)
  have c: "find_all (ascii ''tr'') ?table = [row_lahore]"
    by (simp add: example_defs parser_defs)
  have d: "parse_table example_bs html_no_tbody = Inr []"
    by (rule parse_table_no_tbody [where bs = example_bs and html = html_no_tbody, OF p a b])
  show ?thesis
    by (intro conjI p a b c d)
qed

section \<open>Properties of the lookup route\<close>

lemma api_lookup_get_missing:
  assumes "\<not> truthy (lookup_query args)"
  shows "api_lookup_get cfg e bs args w =
           (respond_json (JObject [(''error'', JString (ascii ''Use ?query=<mobile or cnic>'')),
                                   (''developer'', JString DEVELOPER)]) (lookup_pretty args) 400, w)"
  using assms by (simp add: api_lookup_get_def lookup_query_def lookup_pretty_def Let_def)

lemma api_lookup_get_present:
  assumes "lookup_query args = Some qv" and "qv \<noteq> []"
  shows "api_lookup_get cfg e bs args w =
           (case classify_query qv of
              Inl ex \<Rightarrow> (fetch_failed ex (lookup_pretty args), w)
            | Inr (qtype, normalized) \<Rightarrow>
                (case fetch_upstream cfg e normalized w of
                   (Inl ex, w') \<Rightarrow> (fetch_failed ex (lookup_pretty args), w')
                 | (Inr html, w') \<Rightarrow>
                     (case parse_table bs html of
                        Inl ex \<Rightarrow> (fetch_failed ex (lookup_pretty args), w')
                      | Inr results \<Rightarrow>
                          (respond_json
                             (make_response_object normalized qtype results)
                             (lookup_pretty args) 200, w'))))"
proof -
  have "truthy (lookup_query args)" using assms by (simp add: truthy_def)
  then show ?thesis
    using assms(1)
    unfolding api_lookup_get_def lookup_pretty_def Let_def lookup_query_def [symmetric]
    by simp
qed

lemma fetch_failed_response:
  "fetch_failed ex p =
     \<lparr>body = JObject [(''error'', JString (ascii ''Fetch failed'')),
                      (''detail'', JString (str_of_exn ex)),
                      (''developer'', JString DEVELOPER)],
      pretty = p, status = 500\<rparr>"
  by (simp add: fetch_failed_def respond_json_def)

text \<open>
  C7. The route answers with status 400 exactly when no query value is given (none of
  the parameters \<open>query\<close>, \<open>q\<close>, \<open>value\<close> holds a non-empty string). When a query value is
  given, an error raised by the classifier, by the fetcher or by the parser is answered
  with status 500 and the object with \<open>error\<close> set to \<open>Fetch failed\<close>, \<open>detail\<close> to the
  message of the error and \<open>developer\<close> to the attribution string.
\<close>

theorem api_lookup_get_errors:
  "(status (fst (api_lookup_get cfg e bs args w)) = 400 \<longleftrightarrow> \<not> truthy (lookup_query args))
   \<and> (\<forall>qv ex. lookup_query args = Some qv \<and> qv \<noteq> [] \<and> classify_query qv = Inl ex \<longrightarrow>
         fst (api_lookup_get cfg e bs args w) =
           \<lparr>body = JObject [(''error'', JString (ascii ''Fetch failed'')),
                            (''detail'', JString (str_of_exn ex)),
                            (''developer'', JString DEVELOPER)],
            pretty = lookup_pretty args, status = 500\<rparr>)
   \<and> (\<forall>qv qtype normalized ex.
         lookup_query args = Some qv \<and> qv \<noteq> [] \<and> classify_query qv = Inr (qtype, normalized)
         \<and> fst (fetch_upstream cfg e normalized w) = Inl ex \<longrightarrow>
         fst (api_lookup_get cfg e bs args w) =
           \<lparr>body = JObject [(''error'', JString (ascii ''Fetch failed'')),
                            (''detail'', JString (str_of_exn ex)),
                            (''developer'', JString DEVELOPER)],
            pretty = lookup_pretty args, status = 500\<rparr>)
   \<and> (\<forall>qv qtype normalized html ex.
         lookup_query args = Some qv \<and> qv \<noteq> [] \<and> classify_query qv = Inr (qtype, normalized)
         \<and> fst (fetch_upstream cfg e normalized w) = Inr html
         \<and> parse_table bs html = Inl ex \<longrightarrow>
         fst (api_lookup_get cfg e bs args w) =
           \<lparr>body = JObject [(''error'', JString (ascii ''Fetch failed'')),
                            (''detail'', JString (str_of_exn ex)),
                            (''developer'', JString DEVELOPER)],
            pretty = lookup_pretty args, status = 500\<rparr>)"
proof (intro conjI allI impI)
  show "status (fst (api_lookup_get cfg e bs args w)) = 400 \<longleftrightarrow> \<not> truthy (lookup_query args)"
  proof (cases "truthy (lookup_query args)")
    case False
    then show ?thesis by (simp add: api_lookup_get_missing respond_json_def)
  next
    case True
    then obtain qv where q: "lookup_query args = Some qv" "qv \<noteq> []"
      by (auto simp: truthy_def split: option.splits)
    show ?thesis
      using True
      by (simp add: api_lookup_get_present [OF q] fetch_failed_response respond_json_def
          split: sum.splits prod.splits)
  qed
next
  fix qv ex
  assume "lookup_query args = Some qv \<and> qv \<noteq> [] \<and> classify_query qv = Inl ex"
  then show "fst (api_lookup_get cfg e bs args w) =
           \<lparr>body = JObject [(''error'', JString (ascii ''Fetch failed'')),
                            (''detail'', JString (str_of_exn ex)),
                            (''developer'', JString DEVELOPER)],
            pretty = lookup_pretty args, status = 500\<rparr>"
    by (simp add: api_lookup_get_present fetch_failed_response)
next
  fix qv qtype normalized ex
  assume "lookup_query args = Some qv \<and> qv \<noteq> [] \<and> classify_query qv = Inr (qtype, normalized)
         \<and> fst (fetch_upstream cfg e normalized w) = Inl ex"
  then show "fst (api_lookup_get cfg e bs args w) =
           \<lparr>body = JObject [(''error'', JString (ascii ''Fetch failed'')),
                            (''detail'', JString (str_of_exn ex)),
                            (''developer'', JString DEVELOPER)],
            pretty = lookup_pretty args, status = 500\<rparr>"
    by (cases "fetch_upstream cfg e normalized w")
      (simp add: api_lookup_get_present fetch_failed_response)
next
  fix qv qtype normalized html ex
  assume "lookup_query args = Some qv \<and> qv \<noteq> [] \<and> classify_query qv = Inr (qtype, normalized)
         \<and> fst (fetch_upstream cfg e normalized w) = Inr html
         \<and> parse_table bs html = Inl ex"
  then show "fst (api_lookup_get cfg e bs args w) =
           \<lparr>body = JObject [(''error'', JString (ascii ''Fetch failed'')),
                            (''detail'', JString (str_of_exn ex)),
                            (''developer'', JString DEVELOPER)],
            pretty = lookup_pretty args, status = 500\<rparr>"
    by (cases "fetch_upstream cfg e normalized w")
      (simp add: api_lookup_get_present fetch_failed_response)
qed

theorem api_lookup_get_errors_witness:
  "lookup_query [''query'' \<mapsto> ascii ''abc''] = Some (ascii ''abc'')
   \<and> fst (api_lookup_get config_online env_down example_bs [''query'' \<mapsto> ascii ''abc''] world_start)
       = \<lparr>body = JObject [(''error'', JString (ascii ''Fetch failed'')),
                          (''detail'', JString invalid_query_message),
                          (''developer'', JString DEVELOPER)],
          pretty = False, status = 500\<rparr>
   \<and> fst (api_lookup_get config_online env_down example_bs
             [''q'' \<mapsto> ascii ''03001234567'', ''pretty'' \<mapsto> ascii ''1''] world_start)
       = \<lparr>body = JObject [(''error'', JString (ascii ''Fetch failed'')),
                          (''detail'', JString (ascii ''Connection refused'')),
                          (''developer'', JString DEVELOPER)],
          pretty = True, status = 500\<rparr>
   \<and> fst (fetch_upstream config_online env_rejected (ascii ''923001234567'') world_start)
       = Inr html_rejected
   \<and> fst (api_lookup_get config_online env_rejected example_bs
             [''q'' \<mapsto> ascii ''03001234567'', ''pretty'' \<mapsto> ascii ''1''] world_start)
       = \<lparr>body = JObject [(''error'', JString (ascii ''Fetch failed'')),
                          (''detail'', JString rejected_message),
                          (''developer'', JString DEVELOPER)],
          pretty = True, status = 500\<rparr>
   \<and> status (fst (api_lookup_get config_online env_down example_bs
                     [''query'' \<mapsto> []] world_start)) = 400"
proof -
  let ?a1 = "[''query'' \<mapsto> ascii ''abc'']"
  let ?a2 = "[''q'' \<mapsto> ascii ''03001234567'', ''pretty'' \<mapsto> ascii ''1'']"
  let ?a3 = "[''query'' \<mapsto> ([]::pystr)]"
  have q1: "lookup_query ?a1 = Some (ascii ''abc'')"
    by (simp add: lookup_query_def py_or_def truthy_def ascii_def)
  have n1: "ascii ''abc'' \<noteq> []" by (simp add: ascii_def)
  have c1: "classify_query (ascii ''abc'') = Inl (ValueError invalid_query_message)"
    by (simp add: classify_query_cases strip_def isspace_def is_cnic_iff is_mobile_iff
        is_local_mobile_iff ascii_def)
  have p1: "lookup_pretty ?a1 = False" by (simp add: lookup_pretty_def)
  have r1: "fst (api_lookup_get config_online env_down example_bs ?a1 world_start)
       = \<lparr>body = JObject [(''error'', JString (ascii ''Fetch failed'')),
                          (''detail'', JString invalid_query_message),
                          (''developer'', JString DEVELOPER)],
          pretty = False, status = 500\<rparr>"
    using api_lookup_get_errors [of config_online env_down example_bs ?a1 world_start]
      q1 n1 c1 p1 by simp
  have q2: "lookup_query ?a2 = Some (ascii ''03001234567'')"
    by (simp add: lookup_query_def py_or_def truthy_def ascii_def)
  have n2: "ascii ''03001234567'' \<noteq> []" by (simp add: ascii_def)
  have c2: "classify_query (ascii ''03001234567'') = Inr (''mobile'', ascii ''923001234567'')"
    by (simp add: classify_query_cases strip_def isspace_def is_cnic_iff is_mobile_iff
        is_local_mobile_iff ascii_def isdecimal_def decimal_zeros_def)
  have f2: "fst (fetch_upstream config_online env_down (ascii ''923001234567'') world_start)
      = Inl (RequestException (ascii ''Connection refused''))"
    by (simp add: fetch_upstream_def config_online_def config_offline_def env_down_def Let_def)
  have p2: "lookup_pretty ?a2 = True" by (simp add: lookup_pretty_def)
  have r2: "fst (api_lookup_get config_online env_down example_bs ?a2 world_start)
       = \<lparr>body = JObject [(''error'', JString (ascii ''Fetch failed'')),
                          (''detail'', JString (ascii ''Connection refused'')),
                          (''developer'', JString DEVELOPER)],
          pretty = True, status = 500\<rparr>"
    using api_lookup_get_errors [of config_online env_down example_bs ?a2 world_start]
      q2 n2 c2 f2 p2 by simp
  have f4: "fst (fetch_upstream config_online env_rejected (ascii ''923001234567'') world_start)
      = Inr html_rejected"
    by (simp add: fetch_upstream_def config_online_def config_offline_def env_rejected_def
        raise_for_status_def Let_def)
  have e4: "parse_table example_bs html_rejected = Inl (ParserRejectedMarkup rejected_message)"
    by (simp add: parse_table_rejected example_bs_pages)
  have r4: "fst (api_lookup_get config_online env_rejected example_bs ?a2 world_start)
       = \<lparr>body = JObject [(''error'', JString (ascii ''Fetch failed'')),
                          (''detail'', JString rejected_message),
                          (''developer'', JString DEVELOPER)],
          pretty = True, status = 500\<rparr>"
    using api_lookup_get_errors [of config_online env_rejected example_bs ?a2 world_start]
      q2 n2 c2 f4 e4 p2 by simp
  have q3: "\<not> truthy (lookup_query ?a3)"
    by (simp add: lookup_query_def py_or_def truthy_def)
  have r3: "status (fst (api_lookup_get config_online env_down example_bs ?a3 world_start)) = 400"
    using api_lookup_get_errors [of config_online env_down example_bs ?a3 world_start] q3
    by blast
  show ?thesis
    by (intro conjI q1 r1 r2 f4 r4 r3)
qed

end
